theory Spec2Isabelle
  imports Complex_Main "HOL-Library.Word"
begin

unbundle bit_operations_syntax

section \<open>JavaScript values used by the rating subsystem\<close>

text \<open>
  A JavaScript string is a sequence of 16-bit code units. The two library entry points
  that inspect character codes (\<open>sha256\<close> and \<open>toTrytes\<close>) take code units; strings
  that the program itself builds from ASCII alphabets (hex digests, trytes) are
  \<open>string\<close>s. \<open>utf16\<close> embeds an ASCII/Latin-1 \<open>string\<close> into the code units.
\<close>

type_synonym int32 = "32 word"
type_synonym jsstring = "16 word list"

definition utf16 :: "string \<Rightarrow> jsstring" where
  "utf16 s = map (\<lambda>c. of_nat (of_char c)) s"

section \<open>The vendored digest: js-sha256 0.9.0 (reader.js)\<close>

text \<open>
  The hash object of \<open>reader/js/reader.js\<close> (minified constructor \<open>t\<close>). JavaScript's
  bitwise operators work on 32-bit integers and every sum of the source is cut with
  \<open><< 0\<close> before it is used bitwise, so the numbers are \<open>32 word\<close>s. \<open>bytes\<close> and
  \<open>hBytes\<close> are plain counters. \<open>lastByteIndex\<close> is \<open>undefined\<close> until \<open>update\<close>
  has consumed input.
\<close>

record sha256_obj =
  blocks :: "int32 list"
  h0 :: int32
  h1 :: int32
  h2 :: int32
  h3 :: int32
  h4 :: int32
  h5 :: int32
  h6 :: int32
  h7 :: int32
  block :: int32
  start :: nat
  bytes :: nat
  hBytes :: nat
  finalized :: bool
  hashed :: bool
  first :: bool
  is224 :: bool
  lastByteIndex :: "nat option"

definition HEX_CHARS :: string where
  "HEX_CHARS = ''0123456789abcdef''"

definition EXTRA :: "int32 list" where
  "EXTRA = [- 2147483648, 8388608, 32768, 128]"

definition SHIFT :: "nat list" where
  "SHIFT = [24, 16, 8, 0]"

definition K :: "int32 list" where
  "K = [1116352408, 1899447441, 3049323471, 3921009573, 961987163, 1508970993,
        2453635748, 2870763221, 3624381080, 310598401, 607225278, 1426881987,
        1925078388, 2162078206, 2614888103, 3248222580, 3835390401, 4022224774,
        264347078, 604807628, 770255983, 1249150122, 1555081692, 1996064986,
        2554220882, 2821834349, 2952996808, 3210313671, 3336571891, 3584528711,
        113926993, 338241895, 666307205, 773529912, 1294757372, 1396182291,
        1695183700, 1986661051, 2177026350, 2456956037, 2730485921, 2820302411,
        3259730800, 3345764771, 3516065817, 3600352804, 4094571909, 275423344,
        430227734, 506948616, 659060556, 883997877, 958139571, 1322822218,
        1537002063, 1747873779, 1955562222, 2024104815, 2227730452, 2361852424,
        2428436474, 2756734187, 3204031479, 3329325298]"

text \<open>
  A write \<open>a[i] = v\<close> to a JavaScript array: inside the array it replaces the element,
  past its end the array grows. The holes it leaves are never read by the digest
  (\<open>hash\<close> fills positions 16 to 63 in increasing order), so they are filled with 0.
\<close>

definition array_set :: "int32 list \<Rightarrow> nat \<Rightarrow> int32 \<Rightarrow> int32 list" where
  "array_set xs i v =
     (if i < length xs then xs[i := v] else xs @ replicate (i - length xs) 0 @ [v])"

text \<open>
  The constructor \<open>new Sha256(is224, sharedMemory)\<close>. With shared memory the module's
  array has its positions 0 to 16 zeroed, without it a fresh array of 17 zeros is made.
\<close>

definition Sha256 :: "bool \<Rightarrow> bool \<Rightarrow> sha256_obj" where
  "Sha256 is224' sharedMemory =
     \<lparr> blocks = replicate 17 0,
       h0 = (if is224' then 3238371032 else 1779033703),
       h1 = (if is224' then 914150663 else 3144134277),
       h2 = (if is224' then 812702999 else 1013904242),
       h3 = (if is224' then 4144912697 else 2773480762),
       h4 = (if is224' then 4290775857 else 1359893119),
       h5 = (if is224' then 1750603025 else 2600822924),
       h6 = (if is224' then 1694076839 else 528734635),
       h7 = (if is224' then 3204075428 else 1541459225),
       block = 0, start = 0, bytes = 0, hBytes = 0,
       finalized = False, hashed = False, first = True, is224 = is224',
       lastByteIndex = None \<rparr>"

subsection \<open>hash: one compression of the 64-byte block\<close>

text \<open>\<open>for (j = 16; j < 64; ++j)\<close>: the message schedule, written into \<open>blocks\<close>.\<close>

function schedule :: "nat \<Rightarrow> int32 list \<Rightarrow> int32 list" where
  "schedule t b =
     (if t < 64 then
        (let s = b ! (t - 15);
             i = (drop_bit 7 s OR push_bit 25 s) XOR (drop_bit 18 s OR push_bit 14 s)
                 XOR drop_bit 3 s;
             s' = b ! (t - 2);
             h = (drop_bit 17 s' OR push_bit 15 s') XOR (drop_bit 19 s' OR push_bit 13 s')
                 XOR drop_bit 10 s'
         in schedule (Suc t) (array_set b t (b ! (t - 16) + i + b ! (t - 7) + h)))
      else b)"
  by pat_completeness auto
termination
  by (relation "measure (\<lambda>(t, b). 64 - t)") auto

declare schedule.simps [simp del]

text \<open>
  The working variables of \<open>hash\<close>. The minified source calls them
  \<open>f, u, c, y, l, d, A, w\<close> (the eight registers) and \<open>e, n, o, a\<close> (the products
  kept from one round to the next for the majority function).
\<close>

record hash_vars =
  vf :: int32
  vu :: int32
  vc :: int32
  vy :: int32
  vl :: int32
  vd :: int32
  vA :: int32
  vw :: int32
  ve :: int32
  vn :: int32
  vo :: int32
  va :: int32
  vfirst :: bool

definition sigma0 :: "int32 \<Rightarrow> int32" where
  "sigma0 x = (drop_bit 2 x OR push_bit 30 x) XOR (drop_bit 13 x OR push_bit 19 x)
              XOR (drop_bit 22 x OR push_bit 10 x)"

definition sigma1 :: "int32 \<Rightarrow> int32" where
  "sigma1 x = (drop_bit 6 x OR push_bit 26 x) XOR (drop_bit 11 x OR push_bit 21 x)
              XOR (drop_bit 25 x OR push_bit 7 x)"

text \<open>
  The first of the four rounds in a pass of \<open>for (j = 0; j < 64; j += 4)\<close>. It is a
  conditional expression in the source: on the very first block (\<open>this.first\<close>) the
  round is replaced by constants precomputed from the initial hash value, otherwise it
  is computed as the other three are. Either way it assigns \<open>e\<close>, \<open>w\<close> and \<open>y\<close>,
  returned here in that order.
\<close>

definition first_round ::
  "bool \<Rightarrow> int32 list \<Rightarrow> nat \<Rightarrow> hash_vars \<Rightarrow> int32 \<times> int32 \<times> int32" where
  "first_round is224' b t v =
     (if vfirst v then
        (if is224' then
           (let s = b ! 0 - 1413257819 in (300032, s - 150054599, s + 24177077))
         else
           (let s = b ! 0 - 210244248 in (704751109, s - 1521486534, s + 143694565)))
      else
        (let f = vf v; u = vu v; c = vc v; y = vy v; l = vl v; d = vd v; A = vA v; w = vw v;
             a = va v;
             i = sigma0 f;
             e = f AND u;
             r = e XOR (f AND c) XOR a;
             h = sigma1 l;
             s = w + h + ((l AND d) XOR (NOT l AND A)) + K ! t + b ! t
         in (e, y + s, s + (i + r))))"

text \<open>One pass of the body of the loop: four rounds.\<close>

definition rounds4 :: "bool \<Rightarrow> int32 list \<Rightarrow> nat \<Rightarrow> hash_vars \<Rightarrow> hash_vars" where
  "rounds4 is224' b t v =
     (let f = vf v; u = vu v; c = vc v; l = vl v; d = vd v; A = vA v;
          ewy = first_round is224' b t v;
          e = fst ewy; w = fst (snd ewy); y = snd (snd ewy);
          i = sigma0 y;
          n = y AND f;
          r = n XOR (y AND u) XOR e;
          h = sigma1 w;
          s = A + h + ((w AND l) XOR (NOT w AND d)) + K ! (t + 1) + b ! (t + 1);
          A = c + s;
          c = s + (i + r);
          i = sigma0 c;
          o' = c AND y;
          r = o' XOR (c AND f) XOR n;
          h = sigma1 A;
          s = d + h + ((A AND w) XOR (NOT A AND l)) + K ! (t + 2) + b ! (t + 2);
          d = u + s;
          u = s + (i + r);
          i = sigma0 u;
          a = u AND c;
          r = a XOR (u AND y) XOR o';
          h = sigma1 d;
          s = l + h + ((d AND A) XOR (NOT d AND w)) + K ! (t + 3) + b ! (t + 3);
          l = f + s;
          f = s + (i + r)
      in \<lparr> vf = f, vu = u, vc = c, vy = y, vl = l, vd = d, vA = A, vw = w,
           ve = e, vn = n, vo = o', va = a, vfirst = False \<rparr>)"

function rounds :: "bool \<Rightarrow> int32 list \<Rightarrow> nat \<Rightarrow> hash_vars \<Rightarrow> hash_vars" where
  "rounds is224' b t v = (if t < 64 then rounds is224' b (t + 4) (rounds4 is224' b t v) else v)"
  by pat_completeness auto
termination
  by (relation "measure (\<lambda>(g, b, t, v). 64 - t)") auto

declare rounds.simps [simp del]

definition hash :: "sha256_obj \<Rightarrow> sha256_obj" where
  "hash this =
     (let b = schedule 16 (blocks this);
          v = rounds (is224 this) b 0
                \<lparr> vf = h0 this, vu = h1 this, vc = h2 this, vy = h3 this,
                  vl = h4 this, vd = h5 this, vA = h6 this, vw = h7 this,
                  ve = 0, vn = 0, vo = 0, va = h1 this AND h2 this,
                  vfirst = first this \<rparr>
      in this\<lparr> blocks := b, first := vfirst v,
               h0 := h0 this + vf v, h1 := h1 this + vu v, h2 := h2 this + vc v,
               h3 := h3 this + vy v, h4 := h4 this + vl v, h5 := h5 this + vd v,
               h6 := h6 this + vA v, h7 := h7 this + vw v \<rparr>)"


text \<open>
  \<open>e\<close>, \<open>n\<close> and \<open>o\<close> are declared without a value in the source and assigned in
  every pass before they are read; they start at 0 here.
\<close>

lemma start_hash: "start (hash this) = start this"
  by (simp add: hash_def Let_def)

subsection \<open>update: UTF-8 bytes of the message into the block\<close>

text \<open>\<open>a[e >> 2] |= byte << SHIFT[e & 3]\<close>: byte number \<open>e\<close> of the block, big endian.\<close>

definition put :: "int32 list \<Rightarrow> nat \<Rightarrow> int32 \<Rightarrow> int32 list" where
  "put a e byte = array_set a (e div 4) (a ! (e div 4) OR push_bit (SHIFT ! (e mod 4)) byte)"

text \<open>
  The inner \<open>for (e = this.start; n < o && e < 64; ++n)\<close> of the string branch. It
  returns the block, the byte index reached and the code units not yet consumed. A code
  unit in the surrogate range takes the following unit with it (\<open>charCodeAt(++n)\<close>;
  past the end that is \<open>NaN\<close>, which \<open>&\<close> reads as 0).
\<close>

fun fill :: "int32 list \<Rightarrow> nat \<Rightarrow> jsstring \<Rightarrow> int32 list \<times> nat \<times> jsstring" where
  "fill a e [] = (a, e, [])"
| "fill a e (ch # t) =
     (if e < 64 then
        (let s = (ucast ch :: int32) in
         if s < 128 then fill (put a e s) (e + 1) t
         else if s < 2048 then
           fill (put (put a e (192 OR signed_drop_bit 6 s)) (e + 1) (128 OR (63 AND s))) (e + 2) t
         else if s < 55296 \<or> 57344 \<le> s then
           fill (put (put (put a e (224 OR signed_drop_bit 12 s))
                        (e + 1) (128 OR (signed_drop_bit 6 s AND 63)))
                   (e + 2) (128 OR (63 AND s))) (e + 3) t
         else
           (let nxt = (case t of [] \<Rightarrow> 0 | ch' # t' \<Rightarrow> (ucast ch' :: int32));
                s = 65536 + (push_bit 10 (1023 AND s) OR (1023 AND nxt));
                a' = put (put (put (put a e (240 OR signed_drop_bit 18 s))
                                 (e + 1) (128 OR (signed_drop_bit 12 s AND 63)))
                            (e + 2) (128 OR (signed_drop_bit 6 s AND 63)))
                       (e + 3) (128 OR (63 AND s))
            in case t of [] \<Rightarrow> fill a' (e + 4) [] | ch' # t' \<Rightarrow> fill a' (e + 4) t'))
      else (a, e, ch # t))"

lemma fill_length: "fill a e t = (a', e', t') \<Longrightarrow> length t' \<le> length t"
proof (induction a e t arbitrary: a' e' t' rule: fill.induct)
  case (1 a e)
  then show ?case by simp
next
  case (2 a e ch t)
  show ?case
  proof (cases "e < 64")
    case False
    with "2.prems" show ?thesis by simp
  next
    case True
    let ?s = "ucast ch :: int32"
    consider (one) "?s < 128"
      | (two) "\<not> ?s < 128" "?s < 2048"
      | (three) "\<not> ?s < 128" "\<not> ?s < 2048" "?s < 55296 \<or> 57344 \<le> ?s"
      | (four) "\<not> ?s < 128" "\<not> ?s < 2048" "\<not> (?s < 55296 \<or> 57344 \<le> ?s)"
      by blast
    then show ?thesis
    proof cases
      case one
      with True "2.prems" "2.IH"(1) [OF True refl one, of a' e' t'] show ?thesis
        by (simp add: Let_def)
    next
      case two
      with True "2.prems" "2.IH"(2) [OF True refl two, of a' e' t'] show ?thesis
        by (simp add: Let_def)
    next
      case three
      with True "2.prems" "2.IH"(3) [OF True refl three, of a' e' t'] show ?thesis
        by (simp add: Let_def)
    next
      case four
      show ?thesis
      proof (cases t)
        case Nil
        with four True "2.prems" show ?thesis
          by (simp add: Let_def)
      next
        case (Cons ch' t'')
        with four True "2.prems" "2.IH"(5) [OF True refl four refl refl refl Cons, of a' e' t']
        show ?thesis
          by (simp add: Let_def)
      qed
    qed
  qed
qed

lemma fill_progress:
  "fill a e (ch # t) = (a', e', t') \<Longrightarrow> e < 64 \<Longrightarrow> length t' \<le> length t"
  by (auto simp: Let_def split: if_splits list.splits dest!: fill_length)

lemma fill_full: "\<not> e < 64 \<Longrightarrow> fill a e t = (a, e, t)"
  by (cases t) simp_all

text \<open>\<open>a[0] = this.block; a[16] = a[1] = ... = a[15] = 0\<close>\<close>

definition reset_blocks :: "int32 \<Rightarrow> int32 list \<Rightarrow> int32 list" where
  "reset_blocks blk a = blk # replicate 16 0 @ drop 17 a"

text \<open>
  One pass of the outer \<open>while (n < o)\<close> of \<open>update\<close>: clear the block after a
  compression, fill it, count the bytes, and compress when it is full.
\<close>

definition update_pass :: "sha256_obj \<Rightarrow> jsstring \<Rightarrow> sha256_obj \<times> jsstring" where
  "update_pass this0 t =
     (let this = (if hashed this0
                  then this0\<lparr> hashed := False,
                              blocks := reset_blocks (block this0) (blocks this0) \<rparr>
                  else this0);
          filled = fill (blocks this) (start this) t;
          a = fst filled; e = fst (snd filled); rest = snd (snd filled);
          this = this\<lparr> blocks := a, lastByteIndex := Some e,
                       bytes := bytes this + (e - start this) \<rparr>
      in if 64 \<le> e
         then ((hash (this\<lparr> block := a ! 16, start := e - 64 \<rparr>))\<lparr> hashed := True \<rparr>, rest)
         else (this\<lparr> start := e \<rparr>, rest))"

lemma update_pass_decreases:
  assumes "update_pass this t = (this', rest)" and "t \<noteq> []"
  shows "length rest < length t \<or> (length rest = length t \<and> start this' < start this)"
proof -
  define this1 where "this1 = (if hashed this
      then this\<lparr> hashed := False, blocks := reset_blocks (block this) (blocks this) \<rparr>
      else this)"
  have st: "start this1 = start this"
    by (simp add: this1_def)
  obtain a e r where f: "fill (blocks this1) (start this) t = (a, e, r)"
    by (cases "fill (blocks this1) (start this) t") auto
  have rest: "rest = r"
    using assms(1) f st unfolding update_pass_def this1_def [symmetric]
    by (simp add: Let_def split: if_splits)
  show ?thesis
  proof (cases "start this < 64")
    case True
    from assms(2) obtain ch t0 where t: "t = ch # t0" by (cases t) auto
    from fill_progress [OF f [unfolded t] True] have "length r \<le> length t0" .
    with rest t show ?thesis by simp
  next
    case False
    with f have e: "e = start this" and r: "r = t"
      by (simp_all add: fill_full)
    have "start this' = start this - 64"
      using assms(1) f st e False unfolding update_pass_def this1_def [symmetric]
      by (auto simp add: Let_def start_hash split: if_splits)
    with False rest r show ?thesis by simp
  qed
qed

function update_loop :: "sha256_obj \<Rightarrow> jsstring \<Rightarrow> sha256_obj" where
  "update_loop this t =
     (if t = [] then this
      else (case update_pass this t of (this', rest) \<Rightarrow> update_loop this' rest))"
  by pat_completeness auto
termination
proof (relation "measures [\<lambda>(this, t). length t, \<lambda>(this, t). start this]", goal_cases)
  case 1
  show ?case by simp
next
  case (2 this t this' rest)
  from update_pass_decreases [OF 2(2) [symmetric] 2(1)] show ?case by auto
qed

declare update_loop.simps [simp del]

text \<open>
  \<open>update\<close> on a string. After the loop a byte count above \<open>2^32 - 1\<close> is carried
  into \<open>hBytes\<close>.
\<close>

definition update :: "sha256_obj \<Rightarrow> jsstring \<Rightarrow> sha256_obj" where
  "update this message =
     (if finalized this then this
      else
        (let this = update_loop this message
         in if 4294967295 < bytes this
            then this\<lparr> hBytes := hBytes this + bytes this div 4294967296,
                       bytes := bytes this mod 4294967296 \<rparr>
            else this))"

subsection \<open>finalize and hex\<close>

text \<open>
  \<open>lastByteIndex\<close> is still \<open>undefined\<close> when the message was empty; \<open>undefined >> 2\<close>
  and \<open>3 & undefined\<close> are 0 and \<open>undefined >= 56\<close> is false.
\<close>

definition finalize :: "sha256_obj \<Rightarrow> sha256_obj" where
  "finalize this =
     (if finalized this then this
      else
        (let this = this\<lparr> finalized := True \<rparr>;
             i = (case lastByteIndex this of None \<Rightarrow> 0 | Some i \<Rightarrow> i);
             t = array_set (blocks this) 16 (block this);
             t = array_set t (i div 4) (t ! (i div 4) OR EXTRA ! (i mod 4));
             this = this\<lparr> blocks := t, block := t ! 16 \<rparr>;
             this = (if 56 \<le> i
                     then (let this = (if hashed this then this else hash this)
                           in this\<lparr> blocks := reset_blocks (block this) (blocks this) \<rparr>)
                     else this);
             t = array_set (blocks this) 14
                   (push_bit 3 (of_nat (hBytes this)) OR drop_bit 29 (of_nat (bytes this)));
             t = array_set t 15 (push_bit 3 (of_nat (bytes this)))
         in hash (this\<lparr> blocks := t \<rparr>)))"

text \<open>Eight hex digits of one word: \<open>HEX_CHARS[(h >> 28) & 0x0F] + ... + HEX_CHARS[h & 0x0F]\<close>.\<close>

definition hex_word :: "int32 \<Rightarrow> string" where
  "hex_word h =
     [HEX_CHARS ! unat (signed_drop_bit 28 h AND 15), HEX_CHARS ! unat (signed_drop_bit 24 h AND 15),
      HEX_CHARS ! unat (signed_drop_bit 20 h AND 15), HEX_CHARS ! unat (signed_drop_bit 16 h AND 15),
      HEX_CHARS ! unat (signed_drop_bit 12 h AND 15), HEX_CHARS ! unat (signed_drop_bit 8 h AND 15),
      HEX_CHARS ! unat (signed_drop_bit 4 h AND 15), HEX_CHARS ! unat (15 AND h)]"

definition hex :: "sha256_obj \<Rightarrow> string" where
  "hex this0 =
     (let this = finalize this0
      in hex_word (h0 this) @ hex_word (h1 this) @ hex_word (h2 this) @ hex_word (h3 this)
         @ hex_word (h4 this) @ hex_word (h5 this) @ hex_word (h6 this)
         @ (if is224 this then [] else hex_word (h7 this)))"

text \<open>\<open>sha256(message)\<close> is \<open>new Sha256(false, true).update(message).hex()\<close>.\<close>

definition sha256 :: "jsstring \<Rightarrow> string" where
  "sha256 message = hex (update (Sha256 False True) message)"


section \<open>Address derivation: hashCreate\<close>

text \<open>
  \<open>String.prototype.toUpperCase\<close>. It is applied to the hex digest only; on the ASCII
  range it maps \<open>a\<close>..\<open>z\<close> to \<open>A\<close>..\<open>Z\<close> and keeps every other character.
\<close>

definition upper_case_table :: "(char \<times> char) list" where
  "upper_case_table = zip ''abcdefghijklmnopqrstuvwxyz'' ''ABCDEFGHIJKLMNOPQRSTUVWXYZ''"

definition toUpperCase :: "string \<Rightarrow> string" where
  "toUpperCase str =
     map (\<lambda>ch. case map_of upper_case_table ch of Some u \<Rightarrow> u | None \<Rightarrow> ch) str"

text \<open>\<open>str[i]\<close>: the character at index \<open>i\<close>, \<open>undefined\<close> (\<open>None\<close>) past the end.\<close>

definition char_at :: "string \<Rightarrow> nat \<Rightarrow> char option" where
  "char_at str i = (if i < length str then Some (str ! i) else None)"

text \<open>\<open>str.substr(0, i) + ch + str.substr(i + 1)\<close>\<close>

definition splice :: "string \<Rightarrow> nat \<Rightarrow> char \<Rightarrow> string" where
  "splice str i ch = take i str @ [ch] @ drop (i + 1) str"

text \<open>The body of the loop of \<open>hashCreate\<close>: nine tests in a row, each on the current string.\<close>

definition remap_at :: "string \<Rightarrow> nat \<Rightarrow> string" where
  "remap_at str0 i =
     (let str = (if char_at str0 i = Some CHR ''0'' then splice str0 i CHR ''G'' else str0);
          str = (if char_at str i = Some CHR ''1'' then splice str i CHR ''H'' else str);
          str = (if char_at str i = Some CHR ''2'' then splice str i CHR ''I'' else str);
          str = (if char_at str i = Some CHR ''3'' then splice str i CHR ''J'' else str);
          str = (if char_at str i = Some CHR ''4'' then splice str i CHR ''K'' else str);
          str = (if char_at str i = Some CHR ''5'' then splice str i CHR ''L'' else str);
          str = (if char_at str i = Some CHR ''6'' then splice str i CHR ''M'' else str);
          str = (if char_at str i = Some CHR ''7'' then splice str i CHR ''N'' else str);
          str = (if char_at str i = Some CHR ''8'' then splice str i CHR ''O'' else str)
      in str)"

text \<open>\<open>for (var i = 0; i < bound; i++)\<close>; the source's bound is 65.\<close>

function remap_loop :: "nat \<Rightarrow> nat \<Rightarrow> string \<Rightarrow> string" where
  "remap_loop bound i str =
     (if i < bound then remap_loop bound (i + 1) (remap_at str i) else str)"
  by pat_completeness auto
termination
  by (relation "measure (\<lambda>(bound, i, str). bound - i)") auto

declare remap_loop.simps [simp del]

definition hashCreate :: "jsstring \<Rightarrow> string" where
  "hashCreate str0 =
     (let str = sha256 str0;
          str = toUpperCase str;
          str = remap_loop 65 0 str
      in str @ ''99999999999999999'')"

text \<open>
  The variant the specification discusses, with the loop bound corrected to the 64
  characters of the digest.
\<close>

definition hashCreate_64 :: "jsstring \<Rightarrow> string" where
  "hashCreate_64 str0 =
     (let str = sha256 str0;
          str = toUpperCase str;
          str = remap_loop 64 0 str
      in str @ ''99999999999999999'')"

text \<open>The specification's table for the remap step: digit to letter.\<close>

definition digit_letter :: "(char \<times> char) list" where
  "digit_letter =
     [(CHR ''0'', CHR ''G''), (CHR ''1'', CHR ''H''), (CHR ''2'', CHR ''I''),
      (CHR ''3'', CHR ''J''), (CHR ''4'', CHR ''K''), (CHR ''5'', CHR ''L''),
      (CHR ''6'', CHR ''M''), (CHR ''7'', CHR ''N''), (CHR ''8'', CHR ''O'')]"

definition remap_char :: "char \<Rightarrow> char" where
  "remap_char ch = (case map_of digit_letter ch of Some l \<Rightarrow> l | None \<Rightarrow> ch)"

definition tryteAlphabet :: string where
  "tryteAlphabet = ''9ABCDEFGHIJKLMNOPQRSTUVWXYZ''"

text \<open>
  The ledger client's check of an address in a query (\<open>isArrayOfHashes\<close> of the vendored
  library, with \<open>isTrytes\<close> the regular expression \<open>^[9A-Z]{n}$\<close>): 90 trytes with a
  checksum, 81 without.
\<close>

definition isTrytes :: "string \<Rightarrow> nat \<Rightarrow> bool" where
  "isTrytes trytes n = (length trytes = n \<and> list_all (\<lambda>ch. ch \<in> set tryteAlphabet) trytes)"

definition isHashOrAddress :: "string \<Rightarrow> bool" where
  "isHashOrAddress r = (if length r = 90 then isTrytes r 90 else isTrytes r 81)"

section \<open>Properties of the digest\<close>

lemma is224_hash: "is224 (hash this) = is224 this"
  by (simp add: hash_def Let_def)

lemma is224_update_pass: "update_pass this t = (this', rest) \<Longrightarrow> is224 this' = is224 this"
  by (auto simp: update_pass_def Let_def is224_hash split: if_splits)

lemma is224_update_loop: "is224 (update_loop this t) = is224 this"
proof (induction this t rule: update_loop.induct)
  case (1 this t)
  show ?case
  proof (cases "t = []")
    case True
    then show ?thesis by (simp add: update_loop.simps)
  next
    case False
    obtain this' rest where p: "update_pass this t = (this', rest)"
      by (cases "update_pass this t") auto
    from "1.IH" [OF False p [symmetric]] is224_update_pass [OF p] False p
    show ?thesis by (simp add: update_loop.simps [of this t])
  qed
qed

lemma is224_update: "is224 (update this message) = is224 this"
  by (simp add: update_def Let_def is224_update_loop)

lemma is224_finalize: "is224 (finalize this) = is224 this"
  by (simp add: finalize_def Let_def is224_hash)

lemma nibble_less: "unat ((x :: int32) AND 15) < 16"
proof -
  have "unat (x AND 15) \<le> unat (15 :: int32)"
    by (rule word_and_le1 [THEN word_le_nat_alt [THEN iffD1]])
  then show ?thesis by simp
qed

lemma nibble_less': "unat (15 AND (x :: int32)) < 16"
  using nibble_less [of x] by (simp add: and.commute)

lemma length_HEX_CHARS: "length HEX_CHARS = 16"
  by (simp add: HEX_CHARS_def)

lemma hex_char_in: "n < 16 \<Longrightarrow> HEX_CHARS ! n \<in> set HEX_CHARS"
  by (rule nth_mem) (simp add: length_HEX_CHARS)

lemma length_hex_word: "length (hex_word h) = 8"
  by (simp add: hex_word_def)

lemma set_hex_word: "set (hex_word h) \<subseteq> set HEX_CHARS"
  unfolding hex_word_def list.set insert_subset
  by (intro conjI hex_char_in nibble_less nibble_less' empty_subsetI)

lemma length_hex: "\<not> is224 this \<Longrightarrow> length (hex this) = 64"
  by (simp add: hex_def Let_def is224_finalize length_hex_word)

lemma set_hex: "set (hex this) \<subseteq> set HEX_CHARS"
  using set_hex_word by (auto simp: hex_def Let_def)

lemma length_sha256: "length (sha256 message) = 64"
  by (simp add: sha256_def length_hex is224_update Sha256_def)

lemma set_sha256: "set (sha256 message) \<subseteq> set HEX_CHARS"
  by (simp add: sha256_def set_hex)


section \<open>Evaluating the digest on test vectors\<close>

text \<open>
  The model of the digest is run inside the logic on the empty string and on \<open>abc\<close>
  and gives the published SHA-256 values. The simplifier does not reduce the numeral of
  a word modulo \<open>2^32\<close> by itself; \<open>nrm\<close> and \<open>nrm_vars\<close> are identities that mark
  where the evaluation reduces one.
\<close>

definition nrm :: "int32 \<Rightarrow> int32" where
  "nrm x = x"

definition nrm_vars :: "hash_vars \<Rightarrow> hash_vars" where
  "nrm_vars v = v"

lemma word_of_int_take_bit_32: "(word_of_int (take_bit 32 k) :: int32) = word_of_int k"
  by (rule wi_bintr) simp

lemma nrm_numeral: "nrm (numeral n) = word_of_int (take_bit 32 (numeral n))"
  by (simp only: nrm_def word_of_int_take_bit_32 word_of_int_numeral)

lemma nrm_neg_numeral: "nrm (- numeral n) = word_of_int (take_bit 32 (- numeral n))"
  by (simp only: nrm_def word_of_int_take_bit_32 word_neg_numeral_alt [symmetric])

lemma nrm_0: "nrm 0 = 0"
  by (simp add: nrm_def)

lemma nrm_1: "nrm 1 = 1"
  by (simp add: nrm_def)

lemmas nrm_simps = nrm_numeral nrm_neg_numeral nrm_0 nrm_1

lemma nrm_vars_literal:
  "nrm_vars \<lparr> vf = f, vu = u, vc = c, vy = y, vl = l, vd = d, vA = A, vw = w,
              ve = e, vn = n, vo = o', va = a, vfirst = b \<rparr> =
   \<lparr> vf = nrm f, vu = nrm u, vc = nrm c, vy = nrm y, vl = nrm l, vd = nrm d, vA = nrm A,
     vw = nrm w, ve = nrm e, vn = nrm n, vo = nrm o', va = nrm a, vfirst = b \<rparr>"
  by (simp add: nrm_vars_def nrm_def)

lemma rounds_unfold:
  "rounds g b t v = (if t < 64 then rounds g b (t + 4) (nrm_vars (rounds4 g b t v)) else v)"
  by (subst rounds.simps) (simp add: nrm_vars_def)

lemma schedule_unfold:
  "schedule t b =
     (if t < 64 then
        (let s = b ! (t - 15);
             i = (drop_bit 7 s OR push_bit 25 s) XOR (drop_bit 18 s OR push_bit 14 s)
                 XOR drop_bit 3 s;
             s' = b ! (t - 2);
             h = (drop_bit 17 s' OR push_bit 15 s') XOR (drop_bit 19 s' OR push_bit 13 s')
                 XOR drop_bit 10 s'
         in schedule (Suc t) (array_set b t (nrm (b ! (t - 16) + i + b ! (t - 7) + h))))
      else b)"
  by (subst schedule.simps) (simp add: nrm_def)

lemma replicate_numeral: "replicate (numeral n) x = x # replicate (pred_numeral n) x"
  by (simp add: numeral_eq_Suc)

lemma list_update_numeral: "(x # xs)[numeral n := y] = x # xs[pred_numeral n := y]"
  by (simp add: numeral_eq_Suc)

lemma int32_min: "(- 2147483648 :: int32) = 2147483648"
  by simp

lemmas schedule_eval = schedule_unfold nrm_simps array_set_def list_update_numeral Let_def

lemmas rounds_eval = rounds_unfold nrm_vars_literal nrm_simps rounds4_def first_round_def
  sigma0_def sigma1_def K_def Let_def

lemmas update_eval = update_def update_loop.simps update_pass_def put_def SHIFT_def utf16_def
  Sha256_def finalize_def array_set_def EXTRA_def list_update_numeral replicate_numeral
  int32_min Let_def

lemmas hex_eval = sha256_def hex_def hex_word_def HEX_CHARS_def Let_def

text \<open>The message schedule of the single block of the empty message.\<close>

definition W_empty :: "int32 list" where
  "W_empty =
     [2147483648, 0, 0, 0, 0, 0, 0, 0, 0, 0, 0, 0, 0, 0, 0, 0, 2147483648, 0,
      2117632, 0, 570427392, 0, 84448578, 2147483648, 1476919296, 4235264,
      1451269, 1711282176, 3592562048, 337794312, 3594910044, 3374850048,
      3287351444, 676112230, 109604294, 2742808854, 1904000662, 4274181962,
      2813755136, 2165675682, 2561075048, 62000258, 1562224585, 2975250741,
      3286092305, 614207615, 3297584367, 1575308336, 3741240933, 748767245,
      1008022316, 30329261, 369937616, 195877528, 907775968, 3526495142,
      43741191, 1967544444, 133517113, 4161330627, 3704256008, 1581412744,
      1153231965, 996066459]"

lemma schedule_empty:
  "schedule 16 [2147483648, 0, 0, 0, 0, 0, 0, 0, 0, 0, 0, 0, 0, 0, 0, 0, 0] = W_empty"
  by (simp add: schedule_eval W_empty_def cong: let_weak_cong)

lemma rounds_empty:
  "rounds False W_empty 0
     \<lparr> vf = 1779033703, vu = 3144134277, vc = 1013904242, vy = 2773480762,
       vl = 1359893119, vd = 2600822924, vA = 528734635, vw = 1541459225,
       ve = 0, vn = 0, vo = 0, va = 946250240, vfirst = True \<rparr> =
   \<lparr> vf = 2040978907, vu = 3717492111, vc = 1586299222, vy = 4095722474,
     vl = 3600805733, vd = 3382061760, vA = 2232532848, vw = 477227836,
     ve = 2054, vn = 67371018, vo = 1410138434, va = 1552154886, vfirst = False \<rparr>"
  by (simp add: rounds_eval W_empty_def cong: let_weak_cong)

lemma hash_empty:
  "hash \<lparr> blocks = [2147483648, 0, 0, 0, 0, 0, 0, 0, 0, 0, 0, 0, 0, 0, 0, 0, 0],
      h0 = 1779033703, h1 = 3144134277, h2 = 1013904242, h3 = 2773480762,
      h4 = 1359893119, h5 = 2600822924, h6 = 528734635, h7 = 1541459225,
      block = blk, start = st, bytes = n, hBytes = hn, finalized = fin,
      hashed = hsd, first = True, is224 = False, lastByteIndex = lbi \<rparr> =
   \<lparr> blocks = W_empty,
     h0 = 3820012610, h1 = 2566659092, h2 = 2600203464, h3 = 2574235940,
     h4 = 665731556, h5 = 1687917388, h6 = 2761267483, h7 = 2018687061,
     block = blk, start = st, bytes = n, hBytes = hn, finalized = fin,
     hashed = hsd, first = False, is224 = False, lastByteIndex = lbi \<rparr>"
  by (simp add: hash_def schedule_empty rounds_empty Let_def cong: let_weak_cong)

lemma finalize_empty:
  "finalize (update (Sha256 False True) []) =
   \<lparr> blocks = W_empty,
     h0 = 3820012610, h1 = 2566659092, h2 = 2600203464, h3 = 2574235940,
     h4 = 665731556, h5 = 1687917388, h6 = 2761267483, h7 = 2018687061,
     block = 0, start = 0, bytes = 0, hBytes = 0, finalized = True,
     hashed = False, first = False, is224 = False, lastByteIndex = None \<rparr>"
  by (simp add: update_eval hash_empty cong: let_weak_cong)

lemma sha256_empty:
  "sha256 [] = ''e3b0c44298fc1c149afbf4c8996fb92427ae41e4649b934ca495991b7852b855''"
  by (simp add: hex_eval finalize_empty cong: let_weak_cong)

text \<open>The same for the three bytes of \<open>abc\<close>.\<close>

definition W_abc :: "int32 list" where
  "W_abc =
     [1633837952, 0, 0, 0, 0, 0, 0, 0, 0, 0, 0, 0, 0, 0, 0, 24, 1633837952,
      983040, 2108187653, 1610613702, 1050508152, 25426944, 316456923,
      3806512014, 3357629466, 3073800610, 3854317833, 845560923, 2636160359,
      3968280267, 1881225380, 3552024379, 2482346367, 996719219, 2952069057,
      4043988066, 176896406, 1924104970, 2483675966, 610538786, 2672279444,
      4037431130, 1042573945, 657669027, 206005234, 2215296807, 2049510749,
      106709978, 4215179723, 3430291419, 3118885940, 2845390439, 2226839261,
      3256115900, 344409900, 2987358873, 4015503821, 3957764664, 2682456414,
      2025622859, 2755645205, 1720397816, 4004225740, 313650667]"

lemma schedule_abc:
  "schedule 16 [1633837952, 0, 0, 0, 0, 0, 0, 0, 0, 0, 0, 0, 0, 0, 0, 24, 0] = W_abc"
  by (simp add: schedule_eval W_abc_def cong: let_weak_cong)

lemma rounds_abc:
  "rounds False W_abc 0
     \<lparr> vf = 1779033703, vu = 3144134277, vc = 1013904242, vy = 2773480762,
       vl = 1359893119, vd = 2600822924, vA = 528734635, vw = 1541459225,
       ve = 0, vn = 0, vo = 0, va = 946250240, vfirst = True \<rparr> =
   \<lparr> vf = 1349398616, vu = 3550093669, vc = 80891244, vy = 3093179625,
     vl = 1593118500, vd = 4212265488, vA = 2492278198, vw = 2518632596,
     ve = 3064333426, vn = 2953710825, vo = 5377128, va = 9568612, vfirst = False \<rparr>"
  by (simp add: rounds_eval W_abc_def cong: let_weak_cong)

lemma hash_abc:
  "hash \<lparr> blocks = [1633837952, 0, 0, 0, 0, 0, 0, 0, 0, 0, 0, 0, 0, 0, 0, 24, 0],
      h0 = 1779033703, h1 = 3144134277, h2 = 1013904242, h3 = 2773480762,
      h4 = 1359893119, h5 = 2600822924, h6 = 528734635, h7 = 1541459225,
      block = blk, start = st, bytes = n, hBytes = hn, finalized = fin,
      hashed = hsd, first = True, is224 = False, lastByteIndex = lbi \<rparr> =
   \<lparr> blocks = W_abc,
     h0 = 3128432319, h1 = 2399260650, h2 = 1094795486, h3 = 1571693091,
     h4 = 2953011619, h5 = 2518121116, h6 = 3021012833, h7 = 4060091821,
     block = blk, start = st, bytes = n, hBytes = hn, finalized = fin,
     hashed = hsd, first = False, is224 = False, lastByteIndex = lbi \<rparr>"
  by (simp add: hash_def schedule_abc rounds_abc Let_def cong: let_weak_cong)

lemma finalize_abc:
  "finalize (update (Sha256 False True) (utf16 ''abc'')) =
   \<lparr> blocks = W_abc,
     h0 = 3128432319, h1 = 2399260650, h2 = 1094795486, h3 = 1571693091,
     h4 = 2953011619, h5 = 2518121116, h6 = 3021012833, h7 = 4060091821,
     block = 0, start = 3, bytes = 3, hBytes = 0, finalized = True,
     hashed = False, first = False, is224 = False, lastByteIndex = Some 3 \<rparr>"
  by (simp add: update_eval hash_abc cong: let_weak_cong)

lemma sha256_abc:
  "sha256 (utf16 ''abc'') = ''ba7816bf8f01cfea414140de5dae2223b00361a396177a9cb410ff61f20015ad''"
  by (simp add: hex_eval finalize_abc cong: let_weak_cong)

section \<open>Properties of the remap loop\<close>

lemma splice_eq: "i < length str \<Longrightarrow> splice str i ch = str[i := ch]"
  by (simp add: splice_def upd_conv_take_nth_drop)

lemma remap_char_simps:
  "remap_char CHR ''0'' = CHR ''G''" "remap_char CHR ''1'' = CHR ''H''"
  "remap_char CHR ''2'' = CHR ''I''" "remap_char CHR ''3'' = CHR ''J''"
  "remap_char CHR ''4'' = CHR ''K''" "remap_char CHR ''5'' = CHR ''L''"
  "remap_char CHR ''6'' = CHR ''M''" "remap_char CHR ''7'' = CHR ''N''"
  "remap_char CHR ''8'' = CHR ''O''"
  by (simp_all add: remap_char_def digit_letter_def)

lemma remap_char_other:
  "ch \<notin> set ''012345678'' \<Longrightarrow> remap_char ch = ch"
  by (simp add: remap_char_def digit_letter_def)

lemma remap_at_past: "\<not> i < length str \<Longrightarrow> remap_at str i = str"
  by (simp add: remap_at_def char_at_def)

lemma remap_at_in: "i < length str \<Longrightarrow> remap_at str i = str[i := remap_char (str ! i)]"
proof -
  assume i: "i < length str"
  consider (d) "str ! i \<in> set ''012345678''" | (o) "str ! i \<notin> set ''012345678''" by blast
  then show ?thesis
  proof cases
    case d
    then show ?thesis using i
      by (auto simp: remap_at_def char_at_def splice_eq remap_char_simps)
  next
    case o
    then show ?thesis using i
      by (simp add: remap_at_def char_at_def remap_char_other)
  qed
qed

lemma length_remap_at: "length (remap_at str i) = length str"
  by (cases "i < length str") (simp_all add: remap_at_in remap_at_past)

lemma length_remap_loop: "length (remap_loop bound i str) = length str"
proof (induction bound i str rule: remap_loop.induct)
  case (1 bound i str)
  then show ?case
    by (simp add: remap_loop.simps [of bound i str] length_remap_at)
qed

lemma nth_remap_loop:
  "k < length str \<Longrightarrow>
   remap_loop bound i str ! k = (if i \<le> k \<and> k < bound then remap_char (str ! k) else str ! k)"
proof (induction bound i str rule: remap_loop.induct)
  case (1 bound i str)
  show ?case
  proof (cases "i < bound")
    case False
    then show ?thesis by (auto simp add: remap_loop.simps [of bound i str])
  next
    case True
    have k: "k < length (remap_at str i)" using "1.prems" by (simp add: length_remap_at)
    have at: "remap_at str i ! k = (if k = i then remap_char (str ! k) else str ! k)"
      using "1.prems" by (cases "i < length str") (auto simp: remap_at_in remap_at_past)
    from "1.IH" [OF True k] True at show ?thesis
      by (auto simp add: remap_loop.simps [of bound i str])
  qed
qed

lemma toUpperCase_hex:
  "ch \<in> set HEX_CHARS \<Longrightarrow>
   (case map_of upper_case_table ch of Some u \<Rightarrow> u | None \<Rightarrow> ch) \<in> set ''0123456789ABCDEF''"
proof -
  have "list_all (\<lambda>ch. (case map_of upper_case_table ch of Some u \<Rightarrow> u | None \<Rightarrow> ch)
          \<in> set ''0123456789ABCDEF'') HEX_CHARS"
    by (simp add: HEX_CHARS_def upper_case_table_def)
  moreover assume "ch \<in> set HEX_CHARS"
  ultimately show ?thesis
    unfolding list_all_iff by (rule bspec)
qed

lemma length_toUpperCase: "length (toUpperCase str) = length str"
  by (simp add: toUpperCase_def)

lemma set_toUpperCase_sha256: "set (toUpperCase (sha256 message)) \<subseteq> set ''0123456789ABCDEF''"
  using set_sha256 [of message] toUpperCase_hex
  unfolding toUpperCase_def set_map by blast

lemma remap_char_upper_hex:
  "ch \<in> set ''0123456789ABCDEF'' \<Longrightarrow> remap_char ch \<in> set ''9ABCDEFGHIJKLMNO''"
proof -
  have "list_all (\<lambda>ch. remap_char ch \<in> set ''9ABCDEFGHIJKLMNO'') ''0123456789ABCDEF''"
    by (simp add: remap_char_def digit_letter_def)
  moreover assume "ch \<in> set ''0123456789ABCDEF''"
  ultimately show ?thesis
    unfolding list_all_iff by (rule bspec)
qed

lemma remap_loop_digest:
  "length str \<le> bound \<Longrightarrow> remap_loop bound 0 str = map remap_char str"
  by (rule nth_equalityI) (simp_all add: length_remap_loop nth_remap_loop)

lemma length_digest: "length (toUpperCase (sha256 message)) = 64"
  by (simp add: length_toUpperCase length_sha256)

lemma remap_digest: "remap_loop 65 0 (toUpperCase (sha256 message)) = map remap_char (toUpperCase (sha256 message))"
  by (rule remap_loop_digest) (simp add: length_digest)

lemma filler: "''99999999999999999'' = replicate 17 CHR ''9''"
  by (simp add: eval_nat_numeral)

lemma hashCreate_eq:
  "hashCreate message = map remap_char (toUpperCase (sha256 message)) @ replicate 17 CHR ''9''"
  by (simp only: hashCreate_def Let_def remap_digest filler)

lemma length_hashCreate: "length (hashCreate message) = 81"
  by (simp add: hashCreate_eq length_digest)

lemma take_64_hashCreate:
  "take 64 (hashCreate message) = map remap_char (toUpperCase (sha256 message))"
  by (simp add: hashCreate_eq length_digest)

lemma drop_64_hashCreate: "drop 64 (hashCreate message) = replicate 17 CHR ''9''"
  by (simp add: hashCreate_eq length_digest)

lemma set_take_64_hashCreate: "set (take 64 (hashCreate message)) \<subseteq> set ''9ABCDEFGHIJKLMNO''"
  using set_toUpperCase_sha256 [of message] remap_char_upper_hex
  unfolding take_64_hashCreate set_map by blast

lemma digest_empty:
  "toUpperCase (sha256 []) = ''E3B0C44298FC1C149AFBF4C8996FB92427AE41E4649B934CA495991B7852B855''"
  by (simp add: sha256_empty toUpperCase_def upper_case_table_def)

lemma hashCreate_empty:
  "hashCreate [] =
     ''EJBGCKKI9OFCHCHK9AFBFKCO99MFB9IKINAEKHEKMK9B9JKCAK9L99HBNOLIBOLL99999999999999999''"
  by (simp add: hashCreate_eq digest_empty remap_char_def digit_letter_def filler [symmetric])

lemma digest_abc:
  "toUpperCase (sha256 (utf16 ''abc'')) =
     ''BA7816BF8F01CFEA414140DE5DAE2223B00361A396177A9CB410FF61F20015AD''"
  by (simp add: sha256_abc toUpperCase_def upper_case_table_def)

lemma hashCreate_abc:
  "hashCreate (utf16 ''abc'') =
     ''BANOHMBFOFGHCFEAKHKHKGDELDAEIIIJBGGJMHAJ9MHNNA9CBKHGFFMHFIGGHLAD99999999999999999''"
  by (simp add: hashCreate_eq digest_abc remap_char_def digit_letter_def filler [symmetric])

section \<open>Claims about address derivation\<close>

text \<open>
  C1, as stated, fails. The claim gives the address 65 characters of the alphabet
  followed by 17 fillers, 82 characters in all. The digest has 64 characters, so the
  address has 81, which is also the only length (besides 90, with a checksum) that the
  ledger client accepts in a query. At the empty book path the address is
  \<open>EJBG...OLL\<close> followed by 17 fillers, and the three parts of the claim fail together.
\<close>

theorem hashCreate_length_82_counterexample:
  "\<not> (length (hashCreate []) = 82
      \<and> set (take 65 (hashCreate [])) \<subseteq> set tryteAlphabet
      \<and> drop 65 (hashCreate []) = replicate 17 CHR ''9'')"
  by (simp add: hashCreate_empty)

text \<open>
  C1, amended: for every book path, \<open>hashCreate\<close> returns 81 characters: 64 characters
  drawn from \<open>{9, A..Z}\<close> (so no lowercase letter and no digit 0 to 8), followed by
  exactly 17 characters \<open>9\<close>.
\<close>

theorem hashCreate_address_shape:
  "length (hashCreate p) = 81
   \<and> set (take 64 (hashCreate p)) \<subseteq> set tryteAlphabet
   \<and> drop 64 (hashCreate p) = replicate 17 CHR ''9''"
proof -
  have "set ''9ABCDEFGHIJKLMNO'' \<subseteq> set tryteAlphabet"
    by (simp add: tryteAlphabet_def)
  with set_take_64_hashCreate [of p] have "set (take 64 (hashCreate p)) \<subseteq> set tryteAlphabet"
    by (rule subset_trans)
  then show ?thesis
    by (simp add: length_hashCreate drop_64_hashCreate)
qed

theorem hashCreate_address_shape_witness:
  "hashCreate (utf16 ''abc'') =
     ''BANOHMBFOFGHCFEAKHKHKGDELDAEIIIJBGGJMHAJ9MHNNA9CBKHGFFMHFIGGHLAD99999999999999999''
   \<and> length (hashCreate (utf16 ''abc'')) = 81
   \<and> set (take 64 (hashCreate (utf16 ''abc''))) \<subseteq> set tryteAlphabet
   \<and> drop 64 (hashCreate (utf16 ''abc'')) = replicate 17 CHR ''9''"
  using hashCreate_address_shape [of "utf16 ''abc''"] hashCreate_abc by blast

text \<open>The derived address passes the ledger client's address check.\<close>

lemma hashCreate_isHashOrAddress: "isHashOrAddress (hashCreate p)"
proof -
  have "set ''9ABCDEFGHIJKLMNO'' \<subseteq> set tryteAlphabet"
    by (simp add: tryteAlphabet_def)
  with set_take_64_hashCreate [of p] have a: "set (take 64 (hashCreate p)) \<subseteq> set tryteAlphabet"
    by (rule subset_trans)
  have "set (drop 64 (hashCreate p)) \<subseteq> set tryteAlphabet"
    by (simp add: drop_64_hashCreate tryteAlphabet_def)
  with a have "set (take 64 (hashCreate p) @ drop 64 (hashCreate p)) \<subseteq> set tryteAlphabet"
    by (simp only: set_append Un_subset_iff simp_thms)
  then have "set (hashCreate p) \<subseteq> set tryteAlphabet"
    by (simp only: append_take_drop_id)
  then show ?thesis
    by (auto simp: isHashOrAddress_def isTrytes_def length_hashCreate list_all_iff)
qed

text \<open>
  C4: in the remap step of \<open>hashCreate\<close> the string keeps its length, every position
  of the uppercased digest that holds a digit 0 to 8 holds afterwards the letter that
  the table \<open>digit_letter\<close> gives for it (0 to G, 1 to H, ..., 8 to O), and every position
  that holds 9 or a letter A to F is unchanged.
\<close>

theorem remap_step_positions:
  "i < length (toUpperCase (sha256 p)) \<Longrightarrow>
   length (remap_loop 65 0 (toUpperCase (sha256 p))) = length (toUpperCase (sha256 p))
   \<and> (\<forall>dgt ltr. (dgt, ltr) \<in> set digit_letter \<and> toUpperCase (sha256 p) ! i = dgt
         \<longrightarrow> remap_loop 65 0 (toUpperCase (sha256 p)) ! i = ltr)
   \<and> (toUpperCase (sha256 p) ! i \<in> set ''9ABCDEF''
         \<longrightarrow> remap_loop 65 0 (toUpperCase (sha256 p)) ! i = toUpperCase (sha256 p) ! i)"
proof -
  assume i: "i < length (toUpperCase (sha256 p))"
  let ?D = "toUpperCase (sha256 p)"
  have nth: "remap_loop 65 0 ?D ! i = remap_char (?D ! i)"
    using i by (simp add: remap_digest)
  have digit: "remap_char dgt = ltr" if "(dgt, ltr) \<in> set digit_letter" for dgt ltr
    using that by (auto simp: digit_letter_def remap_char_simps)
  have other: "remap_char ch = ch" if "ch \<in> set ''9ABCDEF''" for ch
    using that by (intro remap_char_other) auto
  show ?thesis
    using nth digit other by (simp add: length_remap_loop)
qed

text \<open>
  At the empty book path the uppercased digest starts \<open>E3B0\<close>: position 1 holds the
  digit 3 and becomes J, position 0 holds the letter E and stays.
\<close>

theorem remap_step_positions_witness:
  "(1::nat) < length (toUpperCase (sha256 []))
   \<and> toUpperCase (sha256 []) ! 1 = CHR ''3''
   \<and> remap_loop 65 0 (toUpperCase (sha256 [])) ! 1 = CHR ''J''
   \<and> toUpperCase (sha256 []) ! 0 = CHR ''E''
   \<and> remap_loop 65 0 (toUpperCase (sha256 [])) ! 0 = CHR ''E''
   \<and> length (remap_loop 65 0 (toUpperCase (sha256 []))) = 64"
proof -
  have h1: "(1::nat) < length (toUpperCase (sha256 []))"
    and h0: "(0::nat) < length (toUpperCase (sha256 []))"
    by (simp_all add: length_digest)
  have d1: "toUpperCase (sha256 []) ! 1 = CHR ''3''"
    and d0: "toUpperCase (sha256 []) ! 0 = CHR ''E''"
    by (simp_all add: digest_empty)
  have t: "(CHR ''3'', CHR ''J'') \<in> set digit_letter"
    by (simp add: digit_letter_def)
  from remap_step_positions [OF h1] t d1
  have r1: "remap_loop 65 0 (toUpperCase (sha256 [])) ! 1 = CHR ''J''"
    by blast
  from remap_step_positions [OF h0] d0
  have r0: "remap_loop 65 0 (toUpperCase (sha256 [])) ! 0 = CHR ''E''"
    by simp
  from remap_step_positions [OF h0]
  have l: "length (remap_loop 65 0 (toUpperCase (sha256 []))) = 64"
    by (simp add: length_digest)
  from h1 d1 r1 d0 r0 l show ?thesis
    by blast
qed

text \<open>
  C5: when the uppercased digest has exactly 64 characters, the 65th pass of the loop
  (index 64, past the end of the string) changes nothing, and \<open>hashCreate\<close> returns the
  same address as the variant whose loop runs 64 times.
\<close>

theorem hashCreate_bound_65_moot:
  "length (toUpperCase (sha256 p)) = 64 \<Longrightarrow>
   remap_at (remap_loop 64 0 (toUpperCase (sha256 p))) 64 = remap_loop 64 0 (toUpperCase (sha256 p))
   \<and> hashCreate p = hashCreate_64 p"
proof -
  assume len: "length (toUpperCase (sha256 p)) = 64"
  have "remap_at (remap_loop 64 0 (toUpperCase (sha256 p))) 64 = remap_loop 64 0 (toUpperCase (sha256 p))"
    by (rule remap_at_past) (simp add: length_remap_loop len)
  moreover have "remap_loop 65 0 (toUpperCase (sha256 p)) = remap_loop 64 0 (toUpperCase (sha256 p))"
    using len by (simp add: remap_loop_digest)
  ultimately show ?thesis
    by (simp add: hashCreate_def hashCreate_64_def Let_def)
qed

theorem hashCreate_bound_65_moot_witness:
  "length (toUpperCase (sha256 (utf16 ''abc''))) = 64
   \<and> remap_at (remap_loop 64 0 (toUpperCase (sha256 (utf16 ''abc'')))) 64
       = remap_loop 64 0 (toUpperCase (sha256 (utf16 ''abc'')))
   \<and> hashCreate (utf16 ''abc'') = hashCreate_64 (utf16 ''abc'')
   \<and> hashCreate_64 (utf16 ''abc'') =
       ''BANOHMBFOFGHCFEAKHKHKGDELDAEIIIJBGGJMHAJ9MHNNA9CBKHGFFMHFIGGHLAD99999999999999999''"
proof -
  have h: "length (toUpperCase (sha256 (utf16 ''abc''))) = 64"
    by (simp add: digest_abc)
  from h hashCreate_bound_65_moot [OF h] hashCreate_abc show ?thesis
    by simp
qed

end
